theory Spec2Isabelle
  imports Complex_Main "HOL-Library.Word" "HOL-Library.Multiset"
begin

section \<open>Data model\<close>

text \<open>
  The program is \<^verbatim>\<open>problem1/src/main.cpp\<close>. A \<^verbatim>\<open>Student\<close> is a struct of an
  \<^verbatim>\<open>int\<close> id and a \<^verbatim>\<open>double\<close> score. The id is a 32-bit two's complement word, read
  with \<open>sint\<close>. The score is modelled as a real number: the program only compares, adds
  and divides scores, and the random source it draws them from yields no NaN. Sums and
  quotients of reals are exact, where binary64 rounds; the statements about an average
  are at inputs where binary64 is exact too.
\<close>

record Student =
  id' :: "32 word"
  score :: real

definition NUM_STUDENTS :: nat where "NUM_STUDENTS = 30"
definition MAX_SCORE :: real where "MAX_SCORE = 100.0"
definition MIN_SCORE :: real where "MIN_SCORE = 0.0"
definition PASS_THRESHOLD :: real where "PASS_THRESHOLD = 60.0"
definition EXCELLENT_THRESHOLD :: real where "EXCELLENT_THRESHOLD = 85.0"

subsection \<open>Formatted output\<close>

text \<open>
  Text produced by \<^verbatim>\<open>std::format\<close>, \<^verbatim>\<open>std::print\<close> and \<^verbatim>\<open>std::println\<close> is kept as the
  sequence of its pieces: the literal segments of the format string and, for every
  replacement field, the argument with its format specification. \<open>Fixed p x\<close> is a
  \<^verbatim>\<open>double\<close> under \<^verbatim>\<open>{:.pf}\<close>, \<open>PadL w f\<close> is \<open>f\<close> left-justified in a field of width
  \<open>w\<close> (\<^verbatim>\<open>{:<w}\<close>). Standard output is the list of the print calls made, in order.
\<close>

datatype frag =
    Str string
  | Num int
  | Siz nat
  | Fixed nat real
  | PadL nat frag

type_synonym fstring = "frag list"

datatype emit = Print fstring | Println fstring

subsection \<open>The random engine\<close>

text \<open>
  \<^verbatim>\<open>generate_single_student\<close> owns a static \<^verbatim>\<open>std::mt19937\<close>. Each call takes two values
  from it: a score from \<^verbatim>\<open>normal_distribution(70, 30)\<close> and an integer from
  \<^verbatim>\<open>uniform_int_distribution(1, 20)\<close>. A draw is that pair; the engine is the list of the
  draws it is still going to deliver, a finite prefix of its unbounded output.
\<close>

type_synonym draw = "real \<times> int"

section \<open>Generating one student\<close>

definition generate_single_student :: "32 word \<Rightarrow> draw \<Rightarrow> fstring + Student" where
  "generate_single_student student_id d =
     (let generated_score = fst d;
          injected_error = (snd d = 1)
      in if injected_error then
           Inl [Str ''Generation failed: '', Str ''Simulated random error'']
         else if generated_score < MIN_SCORE \<or> generated_score > MAX_SCORE then
           Inl [Str ''Generation failed: Raw score '', Fixed 2 generated_score,
                Str '' out of range ['', Fixed 1 MIN_SCORE, Str '', '', Fixed 1 MAX_SCORE,
                Str '']'']
         else Inr \<lparr>id' = student_id, score = generated_score\<rparr>)"

section \<open>The table renderer\<close>

definition W_ID :: nat where "W_ID = 10"
definition W_SCORE :: nat where "W_SCORE = 12"
definition TABLE_WIDTH :: nat where "TABLE_WIDTH = W_ID + W_SCORE + 7"

definition table_row :: "Student \<Rightarrow> emit" where
  "table_row student =
     Println [Str ''| '', PadL W_ID (Num (sint (id' student))), Str '' | '',
              PadL W_SCORE (Fixed 2 (score student)), Str '' |'']"

text \<open>The loop over the range: one row per student, counting them.\<close>

fun table_rows :: "Student list \<Rightarrow> emit list \<times> nat \<Rightarrow> emit list \<times> nat" where
  "table_rows [] acc = acc"
| "table_rows (student # rest) (out, count') =
     table_rows rest (out @ [table_row student], count' + 1)"

definition print_student_table :: "fstring \<Rightarrow> Student list \<Rightarrow> bool \<Rightarrow> emit list" where
  "print_student_table list_title student_range print_summary_count =
     (let header =
            [Println ([Str ''--- ''] @ list_title @ [Str '' ---'']),
             Println [Str ''| '', PadL W_ID (Str ''Student ID''), Str '' | '',
                      PadL W_SCORE (Str ''Score''), Str '' |''],
             Println [Str ''|'', Str (replicate (W_ID + 2) CHR ''-''), Str ''|'',
                      Str (replicate (W_SCORE + 2) CHR ''-''), Str ''|'']];
          (out, count') = table_rows student_range (header, 0);
          out = out @ [Println [Str (replicate TABLE_WIDTH CHR ''-'')]];
          out = (if print_summary_count then
                   out @ [Println [Str ''Total matching students: '', Siz count']] @
                   (if count' = 0 then
                      [Println [Str ''(No students met the criteria for this list)'']]
                    else [])
                 else out)
      in out @ [Println []])"

section \<open>Processing steps\<close>

text \<open>
  \<^verbatim>\<open>core_logic\<close> is a \<^verbatim>\<open>std::function<void(std::vector<Student>&)>\<close>: it may change the
  vector and it may print. It is a function from the vector to the vector it leaves and
  the output it emits.
\<close>

record ProcessingStep =
  main_title :: string
  core_logic :: "Student list \<Rightarrow> Student list \<times> emit list"

definition execute_processing_step ::
  "ProcessingStep \<Rightarrow> Student list \<Rightarrow> Student list \<times> emit list" where
  "execute_processing_step step data =
     (let banner = [Println [Str (CHR 0x0A # ''========== ''), Str (main_title step),
                             Str '' =========='']]
      in if data = [] \<and> main_title step \<noteq> ''(Hypothetical Static Step)'' then
           (data, banner @
              [Println [Str ''--- No student data available to process for this step ---''],
               Println []])
         else (let (data', printed) = core_logic step data in (data', banner @ printed)))"

subsection \<open>Factory functions\<close>

definition make_filter_print_step ::
  "string \<Rightarrow> fstring \<Rightarrow> (Student \<Rightarrow> bool) \<Rightarrow> bool \<Rightarrow> ProcessingStep" where
  "make_filter_print_step title list_title filter_pred print_summary =
     \<lparr>main_title = title,
      core_logic = (\<lambda>data.
        (let view = data
         in (data, print_student_table list_title (filter filter_pred view) print_summary)))\<rparr>"

definition make_action_step ::
  "string \<Rightarrow> (Student list \<Rightarrow> Student list \<times> emit list) \<Rightarrow> ProcessingStep" where
  "make_action_step title action = \<lparr>main_title = title, core_logic = action\<rparr>"

text \<open>The logic of a custom step takes the vector by const reference: it can only print.\<close>

definition make_custom_logic_step ::
  "string \<Rightarrow> (Student list \<Rightarrow> emit list) \<Rightarrow> ProcessingStep" where
  "make_custom_logic_step title logic =
     \<lparr>main_title = title,
      core_logic = (\<lambda>data. (let const_data = data in (data, logic const_data)))\<rparr>"

section \<open>The main program\<close>

subsection \<open>The generation loop\<close>

record gen_state =
  students :: "Student list"
  current_id_index :: nat
  engine :: "draw list"
  out :: "emit list"

text \<open>
  The inner \<^verbatim>\<open>while (true)\<close> of \<^verbatim>\<open>main\<close>, for one target id. It has no retry limit: it
  ends only at a successful generation. When the engine's prefix is used up before that,
  the result is \<open>None\<close>: the loop is still retrying. The 5 ms sleep is not modelled.
\<close>

function attempt_loop :: "32 word \<Rightarrow> nat \<Rightarrow> gen_state \<Rightarrow> gen_state option" where
  "attempt_loop target_id attempt_count st =
     (case engine st of
        [] \<Rightarrow> None
      | d # rest \<Rightarrow>
          (let attempt_count = attempt_count + 1;
               result = generate_single_student target_id d;
               st = st\<lparr>engine := rest\<rparr>
           in case result of
                Inr student \<Rightarrow>
                  Some (st\<lparr>students := students st @ [student],
                           out := out st @
                             [Println [Str '' [OK] Score: '', Fixed 2 (score student),
                                       Str '' (Attempt '', Siz attempt_count, Str '')'']],
                           current_id_index := current_id_index st + 1\<rparr>)
              | Inl error \<Rightarrow>
                  attempt_loop target_id attempt_count
                    (st\<lparr>out := out st @
                        [Print ([Str (CHR 0x0A # ''    [!!) Attempt ''), Siz attempt_count,
                                 Str '' Failed: ''] @ error @ [Str ''. Retrying...''])]\<rparr>)))"
  by pat_completeness auto
termination
  by (relation "measure (\<lambda>(target_id, attempt_count, st). length (engine st))") auto

text \<open>
  The outer loop, driven with the count \<open>n\<close> (\<^verbatim>\<open>NUM_STUDENTS\<close> in the source). The target
  id is \<^verbatim>\<open>static_cast<int>(current_id_index + 1)\<close>, a conversion from \<^verbatim>\<open>size_t\<close> that keeps
  the low 32 bits.
\<close>

function generation_loop :: "nat \<Rightarrow> gen_state \<Rightarrow> gen_state option" where
  "generation_loop n st =
     (if length (students st) < n then
        (let target_id = (word_of_nat (current_id_index st + 1) :: 32 word);
             attempt_count = 0;
             st1 = st\<lparr>out := out st @
                      [Print [Str ''  Generating data for ID '',
                              PadL 4 (Num (sint target_id)), Str ''...'']]\<rparr>
         in case attempt_loop target_id attempt_count st1 of
              None \<Rightarrow> None
            | Some st2 \<Rightarrow> generation_loop n st2)
      else Some st)"
  by pat_completeness auto
termination
proof (relation "measure (\<lambda>(n, st). n - length (students st))")
  show "wf (measure (\<lambda>(n, st). n - length (students st)))" by simp
next
  have grows: "length (students st') = Suc (length (students st))"
    if "attempt_loop target_id attempt_count st = Some st'"
    for target_id attempt_count st st'
    using that
  proof (induction es \<equiv> "engine st" arbitrary: st attempt_count)
    case Nil
    then show ?case by (simp add: attempt_loop.simps [of target_id attempt_count st])
  next
    case (Cons d rest)
    from Cons.hyps(2) [symmetric] Cons.prems show ?case
      apply (subst (asm) attempt_loop.simps)
      apply (simp add: Let_def split: sum.splits)
      subgoal for e
        using Cons.hyps(1) [of "st\<lparr>engine := rest, out := out st @
                [Print ([Str (CHR 0x0A # ''    [!!) Attempt ''), Siz (Suc attempt_count),
                         Str '' Failed: ''] @ e @ [Str ''. Retrying...''])]\<rparr>"
              "Suc attempt_count"]
        by simp
      subgoal by auto
      done
  qed
  fix n :: nat and st :: gen_state and x xa xb x2
  assume "length (students st) < n"
    and "attempt_loop x xa xb = Some x2"
    and "xb = st\<lparr>out := out st @
           [Print [Str ''  Generating data for ID '', PadL 4 (Num (sint x)), Str ''...'']]\<rparr>"
  then show "((n, x2), n, st) \<in> measure (\<lambda>(n, st). n - length (students st))"
    using grows [of x xa xb x2] by simp
qed

text \<open>
  \<^verbatim>\<open>main\<close> up to the end of the generation phase, with the count as a parameter: the
  vector starts empty, the index at 0, and the loop runs until the vector holds \<open>n\<close>
  students.
\<close>

definition generate_data :: "nat \<Rightarrow> draw list \<Rightarrow> gen_state option" where
  "generate_data n draws =
     (case generation_loop n
            \<lparr>students = [], current_id_index = 0, engine = draws,
             out = [Println [Str ''========== Generating Data for '', Siz n,
                     Str '' Students (Normal Dist., Retry on Error) =========='']]\<rparr> of
        None \<Rightarrow> None
      | Some st \<Rightarrow>
          Some (st\<lparr>out := out st @
                  [Println [Str ''======= Generation Complete: '', Siz (length (students st)),
                            Str '' Students Generated ======='']]\<rparr>))"

subsection \<open>The configured steps\<close>

text \<open>The predicates of steps 1 and 2.\<close>

definition is_excellent :: "Student \<Rightarrow> bool" where
  "is_excellent s = (score s > EXCELLENT_THRESHOLD)"

definition is_failing :: "Student \<Rightarrow> bool" where
  "is_failing s = (score s < PASS_THRESHOLD)"

text \<open>The logic of step 3: the average, and the students at or above it.\<close>

definition above_average_logic :: "Student list \<Rightarrow> emit list" where
  "above_average_logic data =
     (if data = [] then
        [Println [Str ''--- Statistics ---''],
         Println [Str ''Number of students analyzed: 0''],
         Println [Str ''Calculated Average Score: N/A''],
         Println [Str ''--------------------'']] @
        print_student_table [Str ''List: Scoring >= Average (N/A)''] [] True
      else
        (let view = data;
             sum_of_scores = foldl (\<lambda>current_sum s. current_sum + score s) 0.0 view;
             average_score = sum_of_scores / real (length view)
         in [Println [Str ''--- Statistics ---''],
             Println [Str ''Number of students analyzed: '', Siz (length view)],
             Println [Str ''Calculated Average Score: '', Fixed 2 average_score],
             Println [Str ''--------------------'']] @
            print_student_table
              [Str ''List: Scoring >= Average ('', Fixed 2 average_score, Str '')'']
              (filter (\<lambda>s. score s \<ge> average_score) view)
              True))"

text \<open>
  The action of step 4 calls \<^verbatim>\<open>std::ranges::sort(data, std::greater<>{}, &Student::score)\<close>.
  The algorithm is the standard library's and is the parameter \<open>ranges_sort\<close>, a function of
  the comparator, the projection and the vector. The comparator and the projection are the
  program's: \<^verbatim>\<open>std::greater<>{}\<close> on the scores, and the member \<^verbatim>\<open>score\<close>.
\<close>

type_synonym sort_algorithm =
  "(real \<Rightarrow> real \<Rightarrow> bool) \<Rightarrow> (Student \<Rightarrow> real) \<Rightarrow> Student list \<Rightarrow> Student list"

definition std_greater :: "real \<Rightarrow> real \<Rightarrow> bool" where
  "std_greater a b \<longleftrightarrow> a > b"

definition sort_all_and_print ::
  "sort_algorithm \<Rightarrow> Student list \<Rightarrow> Student list \<times> emit list" where
  "sort_all_and_print ranges_sort data_to_sort_and_print =
     (let sorted_data = ranges_sort std_greater score data_to_sort_and_print
      in (sorted_data,
          [Println [Str ''--- Sorting Data by Score (Descending)... ---''],
           Println [Str ''--- Data Sorted Successfully ---''],
           Println []] @
          print_student_table [Str ''List: All Students (Sorted by Score Descending)'']
            sorted_data False))"

definition processing_steps :: "sort_algorithm \<Rightarrow> ProcessingStep list" where
  "processing_steps ranges_sort =
     [make_filter_print_step ''(1) Filter: Excellent Students''
        [Str ''List: Score > '', Fixed 1 EXCELLENT_THRESHOLD] is_excellent True,
      make_filter_print_step ''(2) Filter: Failing Students''
        [Str ''List: Score < '', Fixed 1 PASS_THRESHOLD] is_failing True,
      make_custom_logic_step ''(3) Calculate & Filter: Above Average'' above_average_logic,
      make_action_step ''(4) Action & View: Sort All and Print''
        (sort_all_and_print ranges_sort)]"

subsection \<open>Executing the steps\<close>

text \<open>The \<^verbatim>\<open>for\<close> loop of \<^verbatim>\<open>main\<close> over the steps, on the one shared vector.\<close>

fun execute_steps :: "ProcessingStep list \<Rightarrow> Student list \<Rightarrow> Student list \<times> emit list" where
  "execute_steps [] data = (data, [])"
| "execute_steps (step # steps) data =
     (let (data1, printed1) = execute_processing_step step data;
          (data2, printed2) = execute_steps steps data1
      in (data2, printed1 @ printed2))"

definition main ::
  "sort_algorithm \<Rightarrow> draw list \<Rightarrow> (Student list \<times> emit list) option" where
  "main ranges_sort draws =
     (case generate_data NUM_STUDENTS draws of
        None \<Rightarrow> None
      | Some st \<Rightarrow>
          (let printed0 = out st @
                 [Println [Str (CHR 0x0A # ''========== Processing Student Data =========='')]];
               (data, printed) = execute_steps (processing_steps ranges_sort) (students st)
           in Some (data, printed0 @ printed @
                [Println [Str (CHR 0x0A # ''========== Processing Complete =========='')]])))"

section \<open>Auxiliary notions\<close>

text \<open>
  What the standard guarantees of \<^verbatim>\<open>std::ranges::sort\<close>, for any comparator that is a strict
  weak ordering and any projection: the result is a rearrangement of the input in which
  no element's projection is ordered by the comparator before that of an earlier element.
  The order of elements that the comparator does not tell apart is not fixed.
\<close>

definition strict_weak_order :: "(real \<Rightarrow> real \<Rightarrow> bool) \<Rightarrow> bool" where
  "strict_weak_order cmp \<longleftrightarrow>
     (\<forall>a. \<not> cmp a a) \<and>
     (\<forall>a b c. cmp a b \<and> cmp b c \<longrightarrow> cmp a c) \<and>
     (\<forall>a b c. \<not> cmp a b \<and> \<not> cmp b a \<and> \<not> cmp b c \<and> \<not> cmp c b \<longrightarrow>
        \<not> cmp a c \<and> \<not> cmp c a)"

definition is_ranges_sort :: "sort_algorithm \<Rightarrow> bool" where
  "is_ranges_sort ranges_sort \<longleftrightarrow>
     (\<forall>cmp proj xs. strict_weak_order cmp \<longrightarrow>
        mset (ranges_sort cmp proj xs) = mset xs \<and>
        sorted_wrt (\<lambda>a b. \<not> cmp (proj b) (proj a)) (ranges_sort cmp proj xs))"

text \<open>One such algorithm, by insertion.\<close>

fun insert_by ::
  "(real \<Rightarrow> real \<Rightarrow> bool) \<Rightarrow> (Student \<Rightarrow> real) \<Rightarrow> Student \<Rightarrow> Student list \<Rightarrow> Student list" where
  "insert_by cmp proj x [] = [x]"
| "insert_by cmp proj x (y # ys) =
     (if cmp (proj x) (proj y) then x # y # ys else y # insert_by cmp proj x ys)"

fun insertion_sort :: sort_algorithm where
  "insertion_sort cmp proj [] = []"
| "insertion_sort cmp proj (x # xs) = insert_by cmp proj x (insertion_sort cmp proj xs)"

text \<open>A draw on which \<open>generate_single_student\<close> succeeds.\<close>

definition successful_draw :: "draw \<Rightarrow> bool" where
  "successful_draw d \<longleftrightarrow> snd d \<noteq> 1 \<and> MIN_SCORE \<le> fst d \<and> fst d \<le> MAX_SCORE"

text \<open>The two error messages of \<open>generate_single_student\<close>.\<close>

definition injected_message :: fstring where
  "injected_message = [Str ''Generation failed: '', Str ''Simulated random error'']"

definition out_of_range_message :: "real \<Rightarrow> fstring" where
  "out_of_range_message generated_score =
     [Str ''Generation failed: Raw score '', Fixed 2 generated_score,
      Str '' out of range ['', Fixed 1 MIN_SCORE, Str '', '', Fixed 1 MAX_SCORE, Str '']'']"

text \<open>
  What \<open>execute_processing_step\<close> prints itself: the header of a step, and the notice it
  prints instead of running the step.
\<close>

definition step_banner :: "string \<Rightarrow> emit list" where
  "step_banner title =
     [Println [Str (CHR 0x0A # ''========== ''), Str title, Str '' =========='']]"

definition no_data_notice :: "emit list" where
  "no_data_notice =
     [Println [Str ''--- No student data available to process for this step ---''],
      Println []]"

section \<open>The generation loop: what it returns, and when\<close>

declare attempt_loop.simps [simp del] generation_loop.simps [simp del]

lemma generate_single_student_Inr:
  "generate_single_student t d = Inr s \<longleftrightarrow>
     successful_draw d \<and> s = \<lparr>id' = t, score = fst d\<rparr>"
  by (auto simp: generate_single_student_def successful_draw_def Let_def)

lemma generate_single_student_Inl:
  "(\<exists>e. generate_single_student t d = Inl e) \<longleftrightarrow> \<not> successful_draw d"
  by (auto simp: generate_single_student_def successful_draw_def Let_def)

lemma attempt_loop_Nil: "engine st = [] \<Longrightarrow> attempt_loop t a st = None"
  by (simp add: attempt_loop.simps [of t a st])

lemma attempt_loop_good:
  "engine st = d # rest \<Longrightarrow> successful_draw d \<Longrightarrow>
   \<exists>st'. attempt_loop t a st = Some st' \<and>
     students st' = students st @ [\<lparr>id' = t, score = fst d\<rparr>] \<and>
     current_id_index st' = Suc (current_id_index st) \<and> engine st' = rest"
  using generate_single_student_Inr [of t d "\<lparr>id' = t, score = fst d\<rparr>"]
  by (simp add: attempt_loop.simps [of t a st] Let_def)

lemma attempt_loop_bad:
  "engine st = d # rest \<Longrightarrow> \<not> successful_draw d \<Longrightarrow>
   \<exists>o'. attempt_loop t a st = attempt_loop t (Suc a) (st\<lparr>engine := rest, out := o'\<rparr>)"
  using generate_single_student_Inl [of t d]
  by (auto simp add: attempt_loop.simps [of t a st] Let_def)

lemma attempt_loop_None:
  "\<forall>d\<in>set (engine st). \<not> successful_draw d \<Longrightarrow> attempt_loop t a st = None"
proof (induction es \<equiv> "engine st" arbitrary: st a)
  case Nil
  then show ?case by (simp add: attempt_loop_Nil)
next
  case (Cons d rest)
  from Cons.hyps(2) [symmetric] Cons.prems have bad: "\<not> successful_draw d" by simp
  from attempt_loop_bad [OF Cons.hyps(2) [symmetric] bad, of t a]
  obtain o' where eq:
    "attempt_loop t a st = attempt_loop t (Suc a) (st\<lparr>engine := rest, out := o'\<rparr>)"
    by blast
  from Cons.hyps(2) [symmetric] Cons.prems
  have "attempt_loop t (Suc a) (st\<lparr>engine := rest, out := o'\<rparr>) = None"
    by (intro Cons.hyps(1)) simp_all
  with eq show ?case by simp
qed

lemma attempt_loop_Some:
  "dropWhile (\<lambda>d. \<not> successful_draw d) (engine st) = d # rest \<Longrightarrow>
   \<exists>st'. attempt_loop t a st = Some st' \<and>
     students st' = students st @ [\<lparr>id' = t, score = fst d\<rparr>] \<and>
     current_id_index st' = Suc (current_id_index st) \<and> engine st' = rest"
proof (induction es \<equiv> "engine st" arbitrary: st a)
  case Nil
  then show ?case by simp
next
  case (Cons e es)
  show ?case
  proof (cases "successful_draw e")
    case True
    with Cons.hyps(2) [symmetric] Cons.prems have "e = d" "es = rest" by simp_all
    with True Cons.hyps(2) [symmetric] attempt_loop_good [of st d rest t a]
    show ?thesis by simp
  next
    case False
    from attempt_loop_bad [OF Cons.hyps(2) [symmetric] False, of t a]
    obtain o' where eq:
      "attempt_loop t a st = attempt_loop t (Suc a) (st\<lparr>engine := es, out := o'\<rparr>)"
      by blast
    from False Cons.hyps(2) [symmetric] Cons.prems
    have "dropWhile (\<lambda>d. \<not> successful_draw d) (engine (st\<lparr>engine := es, out := o'\<rparr>)) = d # rest"
      by simp
    from Cons.hyps(1) [OF _ this, of "Suc a"] eq show ?thesis by simp
  qed
qed

lemma filter_dropWhile_not: "filter P (dropWhile (\<lambda>x. \<not> P x) xs) = filter P xs"
  by (induction xs) auto

lemma dropWhile_not_Cons:
  "filter P xs \<noteq> [] \<Longrightarrow>
   \<exists>d rest. dropWhile (\<lambda>x. \<not> P x) xs = d # rest \<and> P d \<and> filter P xs = d # filter P rest"
  by (induction xs) auto

lemma generation_loop_done:
  "\<not> length (students st) < n \<Longrightarrow> generation_loop n st = Some st"
  by (simp add: generation_loop.simps [of n st])

lemma generation_loop_step:
  "length (students st) < n \<Longrightarrow>
   generation_loop n st =
     (case attempt_loop (word_of_nat (Suc (current_id_index st))) 0
             (st\<lparr>out := out st @
                [Print [Str ''  Generating data for ID '',
                        PadL 4 (Num (sint (word_of_nat (Suc (current_id_index st)) :: 32 word))),
                        Str ''...'']]\<rparr>) of
        None \<Rightarrow> None
      | Some st2 \<Rightarrow> generation_loop n st2)"
  by (simp add: generation_loop.simps [of n st] Let_def)

lemma generation_loop_Some:
  "k = n - length (students st) \<Longrightarrow>
   k \<le> length (filter successful_draw (engine st)) \<Longrightarrow>
   \<exists>st' new. generation_loop n st = Some st' \<and> students st' = students st @ new \<and>
     length new = k \<and>
     map id' new = map (\<lambda>i. word_of_nat (Suc i)) [current_id_index st ..< current_id_index st + k] \<and>
     (\<forall>s\<in>set new. MIN_SCORE \<le> score s \<and> score s \<le> MAX_SCORE)"
proof (induction k arbitrary: st)
  case 0
  then have "generation_loop n st = Some st" by (simp add: generation_loop_done)
  then show ?case by simp
next
  case (Suc k)
  from Suc.prems have lt: "length (students st) < n" by simp
  let ?t = "word_of_nat (Suc (current_id_index st)) :: 32 word"
  let ?st1 = "st\<lparr>out := out st @
                [Print [Str ''  Generating data for ID '', PadL 4 (Num (sint ?t)), Str ''...'']]\<rparr>"
  from Suc.prems have "filter successful_draw (engine st) \<noteq> []" by auto
  from dropWhile_not_Cons [OF this] obtain d rest where
    dw: "dropWhile (\<lambda>x. \<not> successful_draw x) (engine st) = d # rest" and
    good: "successful_draw d" and
    flt: "filter successful_draw (engine st) = d # filter successful_draw rest"
    by blast
  from dw have "dropWhile (\<lambda>x. \<not> successful_draw x) (engine ?st1) = d # rest" by simp
  from attempt_loop_Some [OF this, of ?t 0] obtain st2 where
    al: "attempt_loop ?t 0 ?st1 = Some st2" and
    st2: "students st2 = students st @ [\<lparr>id' = ?t, score = fst d\<rparr>]"
      "current_id_index st2 = Suc (current_id_index st)" "engine st2 = rest"
    by auto
  from lt al have step: "generation_loop n st = generation_loop n st2"
    by (simp add: generation_loop_step)
  from Suc.prems st2 flt have "k = n - length (students st2)"
    "k \<le> length (filter successful_draw (engine st2))" by simp_all
  from Suc.IH [OF this] obtain st' new where
    r: "generation_loop n st2 = Some st'" "students st' = students st2 @ new" "length new = k"
      "map id' new = map (\<lambda>i. word_of_nat (Suc i)) [current_id_index st2 ..< current_id_index st2 + k]"
      "\<forall>s\<in>set new. MIN_SCORE \<le> score s \<and> score s \<le> MAX_SCORE"
    by blast
  let ?new = "\<lparr>id' = ?t, score = fst d\<rparr> # new"
  have "generation_loop n st = Some st'" using step r(1) by simp
  moreover have "students st' = students st @ ?new" using r(2) st2(1) by simp
  moreover have "length ?new = Suc k" using r(3) by simp
  moreover have "map id' ?new =
      map (\<lambda>i. word_of_nat (Suc i)) [current_id_index st ..< current_id_index st + Suc k]"
  proof -
    have "[current_id_index st ..< current_id_index st + Suc k] =
        current_id_index st # [current_id_index st2 ..< current_id_index st2 + k]"
      using st2(2) by (simp add: upt_conv_Cons del: upt_Suc)
    with r(4) show ?thesis by (simp del: upt_Suc)
  qed
  moreover have "\<forall>s\<in>set ?new. MIN_SCORE \<le> score s \<and> score s \<le> MAX_SCORE"
    using r(5) good by (simp add: successful_draw_def)
  ultimately show ?case by blast
qed

lemma generation_loop_None:
  "k = n - length (students st) \<Longrightarrow>
   length (filter successful_draw (engine st)) < k \<Longrightarrow> generation_loop n st = None"
proof (induction k arbitrary: st)
  case 0
  then show ?case by simp
next
  case (Suc k)
  from Suc.prems have lt: "length (students st) < n" by simp
  let ?t = "word_of_nat (Suc (current_id_index st)) :: 32 word"
  let ?st1 = "st\<lparr>out := out st @
                [Print [Str ''  Generating data for ID '', PadL 4 (Num (sint ?t)), Str ''...'']]\<rparr>"
  show ?case
  proof (cases "filter successful_draw (engine st) = []")
    case True
    then have "\<forall>d\<in>set (engine ?st1). \<not> successful_draw d" by (simp add: filter_empty_conv)
    from attempt_loop_None [OF this] lt show ?thesis by (simp add: generation_loop_step)
  next
    case False
    from dropWhile_not_Cons [OF this] obtain d rest where
      dw: "dropWhile (\<lambda>x. \<not> successful_draw x) (engine st) = d # rest" and
      flt: "filter successful_draw (engine st) = d # filter successful_draw rest"
      by blast
    from dw have "dropWhile (\<lambda>x. \<not> successful_draw x) (engine ?st1) = d # rest" by simp
    from attempt_loop_Some [OF this, of ?t 0] obtain st2 where
      al: "attempt_loop ?t 0 ?st1 = Some st2" and
      st2: "students st2 = students st @ [\<lparr>id' = ?t, score = fst d\<rparr>]" "engine st2 = rest"
      by auto
    from lt al have step: "generation_loop n st = generation_loop n st2"
      by (simp add: generation_loop_step)
    from Suc.prems st2 flt have "k = n - length (students st2)"
      "length (filter successful_draw (engine st2)) < k" by simp_all
    from Suc.IH [OF this] step show ?thesis by simp
  qed
qed


lemma sint_word_of_nat_32: "n < 2 ^ 31 \<Longrightarrow> sint (word_of_nat n :: 32 word) = int n"
proof -
  assume n: "n < 2 ^ 31"
  have "sint (word_of_nat n :: 32 word) = signed_take_bit 31 (int n)"
    using sint_sbintrunc' [where 'a = 32, of "int n"] by simp
  also have "\<dots> = int n"
    using n by (simp add: signed_take_bit_int_eq_self_iff)
  finally show ?thesis .
qed

lemma generate_data_Some:
  assumes "n \<le> length (filter successful_draw draws)"
  shows "\<exists>st. generate_data n draws = Some st \<and> length (students st) = n \<and>
     map id' (students st) = map (\<lambda>i. word_of_nat (Suc i)) [0 ..< n] \<and>
     (\<forall>s\<in>set (students st). MIN_SCORE \<le> score s \<and> score s \<le> MAX_SCORE)"
proof -
  let ?st0 = "\<lparr>students = [], current_id_index = 0, engine = draws,
             out = [Println [Str ''========== Generating Data for '', Siz n,
                     Str '' Students (Normal Dist., Retry on Error) =========='']]\<rparr>"
  from assms generation_loop_Some [of n n ?st0]
  obtain st' new where "generation_loop n ?st0 = Some st'" "students st' = new" "length new = n"
     "map id' new = map (\<lambda>i. word_of_nat (Suc i)) [0 ..< n]"
     "\<forall>s\<in>set new. MIN_SCORE \<le> score s \<and> score s \<le> MAX_SCORE"
    by auto
  then show ?thesis by (simp add: generate_data_def)
qed

lemma generate_data_None:
  assumes "length (filter successful_draw draws) < n"
  shows "generate_data n draws = None"
  using assms generation_loop_None [of n n "\<lparr>students = [], current_id_index = 0, engine = draws,
             out = [Println [Str ''========== Generating Data for '', Siz n,
                     Str '' Students (Normal Dist., Retry on Error) =========='']]\<rparr>"]
  by (simp add: generate_data_def)

section \<open>C1: the generated dataset\<close>

text \<open>
  C1. The loop is driven with the count, which is \<^verbatim>\<open>NUM_STUDENTS\<close> = 30 in the program; the
  ids are 32-bit \<^verbatim>\<open>int\<close>s, and the count is one that fits an \<^verbatim>\<open>int\<close>. The generation phase
  returns when the engine delivers at least that many successful draws, and only then (the
  loop has no retry limit). The vector it returns holds exactly that many students, their
  ids are \<open>1, 2, ..., count\<close> in this order, and every score lies in \<open>[0, 100]\<close>.
\<close>

theorem generated_ids_and_scores:
  assumes "count' < 2 ^ 31"
  shows "(generate_data count' draws = None \<longleftrightarrow>
            length (filter successful_draw draws) < count') \<and>
         (count' \<le> length (filter successful_draw draws) \<longrightarrow>
            (\<exists>st. generate_data count' draws = Some st \<and>
               length (students st) = count' \<and>
               map (\<lambda>s. sint (id' s)) (students st) = map int [1 ..< Suc count'] \<and>
               (\<forall>s\<in>set (students st). 0 \<le> score s \<and> score s \<le> 100)))"
proof (cases "count' \<le> length (filter successful_draw draws)")
  case True
  from generate_data_Some [OF True] obtain st where
    st: "generate_data count' draws = Some st" "length (students st) = count'"
      "map id' (students st) = map (\<lambda>i. word_of_nat (Suc i)) [0 ..< count']"
      "\<forall>s\<in>set (students st). MIN_SCORE \<le> score s \<and> score s \<le> MAX_SCORE"
    by blast
  have "map (\<lambda>s. sint (id' s)) (students st) = map sint (map id' (students st))"
    by simp
  also have "\<dots> = map (\<lambda>i. sint (word_of_nat (Suc i) :: 32 word)) [0 ..< count']"
    by (simp only: st(3) map_map comp_def)
  also have "\<dots> = map (\<lambda>i. int (Suc i)) [0 ..< count']"
    using assms by (intro map_cong refl sint_word_of_nat_32) simp
  also have "\<dots> = map int (map Suc [0 ..< count'])" by (simp only: map_map comp_def)
  also have "map Suc [0 ..< count'] = [1 ..< Suc count']"
    by (simp only: map_Suc_upt One_nat_def)
  finally have ids: "map (\<lambda>s. sint (id' s)) (students st) = map int [1 ..< Suc count']" .
  from st(4) have "\<forall>s\<in>set (students st). 0 \<le> score s \<and> score s \<le> 100"
    by (simp add: MIN_SCORE_def MAX_SCORE_def)
  with True st(1,2) ids show ?thesis by simp
next
  case False
  then have "length (filter successful_draw draws) < count'" by simp
  from generate_data_None [OF this] False show ?thesis by simp
qed

text \<open>
  C1 at the program's count, 30: from an engine whose first draw is a simulated error,
  whose second is out of range and whose next 30 succeed, the loop returns 30 students
  with the ids 1 to 30.
\<close>

theorem generated_ids_and_scores_witness:
  "NUM_STUDENTS < 2 ^ 31 \<and>
   NUM_STUDENTS \<le>
     length (filter successful_draw ((50, 1) # (120, 2) # replicate 30 (75, 2))) \<and>
   (\<exists>st. generate_data NUM_STUDENTS ((50, 1) # (120, 2) # replicate 30 (75, 2)) = Some st \<and>
      length (students st) = 30 \<and>
      map (\<lambda>s. sint (id' s)) (students st) = map int [1 ..< 31] \<and>
      (\<forall>s\<in>set (students st). 0 \<le> score s \<and> score s \<le> 100))"
proof -
  let ?draws = "(50, 1) # (120, 2) # replicate 30 (75, 2) :: draw list"
  have small: "NUM_STUDENTS < 2 ^ 31" by (simp add: NUM_STUDENTS_def)
  have "filter successful_draw ?draws = replicate 30 (75, 2)"
    by (simp add: successful_draw_def MIN_SCORE_def MAX_SCORE_def)
  then have enough: "NUM_STUDENTS \<le> length (filter successful_draw ?draws)"
    by (simp add: NUM_STUDENTS_def)
  from generated_ids_and_scores [OF small, of ?draws] enough
  have "\<exists>st. generate_data NUM_STUDENTS ?draws = Some st \<and>
      length (students st) = NUM_STUDENTS \<and>
      map (\<lambda>s. sint (id' s)) (students st) = map int [1 ..< Suc NUM_STUDENTS] \<and>
      (\<forall>s\<in>set (students st). 0 \<le> score s \<and> score s \<le> 100)"
    by blast
  moreover have "Suc NUM_STUDENTS = 31" by (simp add: NUM_STUDENTS_def)
  moreover have "NUM_STUDENTS = 30" by (simp add: NUM_STUDENTS_def)
  ultimately have "\<exists>st. generate_data NUM_STUDENTS ?draws = Some st \<and>
      length (students st) = 30 \<and>
      map (\<lambda>s. sint (id' s)) (students st) = map int [1 ..< 31] \<and>
      (\<forall>s\<in>set (students st). 0 \<le> score s \<and> score s \<le> 100)"
    by (simp only:)
  with small enough show ?thesis by blast
qed

section \<open>C2: the three outcomes of one generation\<close>

text \<open>
  C2. With the draw \<open>d\<close> (the score drawn and the value of the error injector), for every
  id: when the injector shows 1 the result is the simulated error, whatever the score;
  otherwise the result is the out-of-range error exactly when the score is below 0 or
  above 100; otherwise it is the student with the given id and the score as drawn. The
  two error messages differ.
\<close>

theorem generate_single_student_cases:
  "(snd d = 1 \<longrightarrow> generate_single_student student_id d = Inl injected_message) \<and>
   (snd d \<noteq> 1 \<longrightarrow>
      (generate_single_student student_id d = Inl (out_of_range_message (fst d)) \<longleftrightarrow>
         fst d < 0 \<or> fst d > 100)) \<and>
   (snd d \<noteq> 1 \<and> 0 \<le> fst d \<and> fst d \<le> 100 \<longrightarrow>
      generate_single_student student_id d = Inr \<lparr>id' = student_id, score = fst d\<rparr>) \<and>
   injected_message \<noteq> out_of_range_message (fst d)"
  by (auto simp: generate_single_student_def injected_message_def out_of_range_message_def
        MIN_SCORE_def MAX_SCORE_def Let_def)

text \<open>
  C2 at three draws: an injected error on a score far out of range, a score just above
  100, and the score 100 itself.
\<close>

theorem generate_single_student_cases_witness:
  "generate_single_student 7 (-250, 1) = Inl injected_message \<and>
   generate_single_student 7 (100.5, 2) = Inl (out_of_range_message 100.5) \<and>
   generate_single_student 7 (100, 20) = Inr \<lparr>id' = 7, score = 100\<rparr>"
  using generate_single_student_cases [of "(-250, 1)" 7]
    generate_single_student_cases [of "(100.5, 2)" 7]
    generate_single_student_cases [of "(100, 20)" 7]
  by simp

section \<open>The executor\<close>

lemma execute_processing_step_empty:
  "main_title step \<noteq> ''(Hypothetical Static Step)'' \<Longrightarrow>
   execute_processing_step step [] = ([], step_banner (main_title step) @ no_data_notice)"
  by (simp add: execute_processing_step_def step_banner_def no_data_notice_def Let_def)

lemma execute_processing_step_nonempty:
  "data \<noteq> [] \<Longrightarrow>
   execute_processing_step step data =
     (fst (core_logic step data), step_banner (main_title step) @ snd (core_logic step data))"
  by (simp add: execute_processing_step_def step_banner_def Let_def split: prod.splits)

lemma execute_steps_append:
  "execute_steps (xs @ ys) data =
     (let (d1, p1) = execute_steps xs data; (d2, p2) = execute_steps ys d1
      in (d2, p1 @ p2))"
  by (induction xs arbitrary: data) (simp_all add: Let_def split: prod.splits)

lemma execute_steps_empty:
  "\<forall>step\<in>set steps. main_title step \<noteq> ''(Hypothetical Static Step)'' \<Longrightarrow>
   execute_steps steps [] =
     ([], concat (map (\<lambda>step. step_banner (main_title step) @ no_data_notice) steps))"
  by (induction steps) (simp_all add: execute_processing_step_empty)

lemma processing_steps_not_static:
  "\<forall>step\<in>set (processing_steps ranges_sort).
     main_title step \<noteq> ''(Hypothetical Static Step)''"
  by (simp add: processing_steps_def make_filter_print_step_def make_custom_logic_step_def
        make_action_step_def)

lemma processing_steps_nth:
  "processing_steps ranges_sort =
     [processing_steps ranges_sort ! 0, processing_steps ranges_sort ! 1,
      processing_steps ranges_sort ! 2, processing_steps ranges_sort ! 3]"
  by (simp add: processing_steps_def)

lemma read_only_steps:
  "fst (execute_processing_step (processing_steps ranges_sort ! 0) data) = data"
  "fst (execute_processing_step (processing_steps ranges_sort ! 1) data) = data"
  "fst (execute_processing_step (processing_steps ranges_sort ! 2) data) = data"
  by (simp_all add: processing_steps_def make_filter_print_step_def make_custom_logic_step_def
        execute_processing_step_def Let_def)

section \<open>The table\<close>

lemma table_rows_eq:
  "table_rows xs (printed, n) = (printed @ map table_row xs, n + length xs)"
  by (induction xs arbitrary: printed n) simp_all

lemma print_student_table_eq:
  "print_student_table list_title xs print_summary_count =
     [Println ([Str ''--- ''] @ list_title @ [Str '' ---'']),
      Println [Str ''| '', PadL 10 (Str ''Student ID''), Str '' | '',
               PadL 12 (Str ''Score''), Str '' |''],
      Println [Str ''|'', Str ''------------'', Str ''|'', Str ''--------------'', Str ''|'']] @
     map table_row xs @
     [Println [Str ''-----------------------------'']] @
     (if print_summary_count then
        [Println [Str ''Total matching students: '', Siz (length xs)]] @
        (if xs = [] then [Println [Str ''(No students met the criteria for this list)'']]
         else [])
      else []) @
     [Println []]"
  by (simp add: print_student_table_def table_rows_eq Let_def W_ID_def W_SCORE_def
        TABLE_WIDTH_def numeral_eq_Suc)

lemma table_row_in_table:
  "table_row s \<in> set (print_student_table list_title xs print_summary_count) \<Longrightarrow>
   \<exists>t\<in>set xs. score t = score s"
  by (auto simp: print_student_table_eq table_row_def split: if_splits)

lemma step1_output:
  "snd (execute_processing_step (processing_steps ranges_sort ! 0) data) =
     step_banner ''(1) Filter: Excellent Students'' @
     (if data = [] then no_data_notice
      else print_student_table [Str ''List: Score > '', Fixed 1 EXCELLENT_THRESHOLD]
             (filter is_excellent data) True)"
  by (simp add: processing_steps_def make_filter_print_step_def execute_processing_step_def
        step_banner_def no_data_notice_def Let_def)

lemma step2_output:
  "snd (execute_processing_step (processing_steps ranges_sort ! 1) data) =
     step_banner ''(2) Filter: Failing Students'' @
     (if data = [] then no_data_notice
      else print_student_table [Str ''List: Score < '', Fixed 1 PASS_THRESHOLD]
             (filter is_failing data) True)"
  by (simp add: processing_steps_def make_filter_print_step_def execute_processing_step_def
        step_banner_def no_data_notice_def Let_def)

section \<open>Sorting\<close>

lemma strict_weak_order_std_greater: "strict_weak_order std_greater"
  by (auto simp: strict_weak_order_def std_greater_def)

lemma insert_by_mset: "mset (insert_by cmp proj x xs) = add_mset x (mset xs)"
  by (induction xs) simp_all

lemma insert_by_set: "set (insert_by cmp proj x xs) = insert x (set xs)"
  by (induction xs) auto

lemma insert_by_sorted:
  assumes "strict_weak_order cmp"
    and "sorted_wrt (\<lambda>a b. \<not> cmp (proj b) (proj a)) xs"
  shows "sorted_wrt (\<lambda>a b. \<not> cmp (proj b) (proj a)) (insert_by cmp proj x xs)"
  using assms(2)
proof (induction xs)
  case Nil
  then show ?case by simp
next
  case (Cons y ys)
  from assms(1) have irrefl: "\<not> cmp a a" and trans: "cmp a b \<Longrightarrow> cmp b c \<Longrightarrow> cmp a c"
    for a b c
    unfolding strict_weak_order_def by blast+
  show ?case
  proof (cases "cmp (proj x) (proj y)")
    case True
    have "\<not> cmp (proj y) (proj x)" using True irrefl trans by blast
    moreover have "\<not> cmp (proj z) (proj x)" if "z \<in> set ys" for z
    proof
      assume "cmp (proj z) (proj x)"
      from this True have "cmp (proj z) (proj y)" by (rule trans)
      with Cons.prems that show False by simp
    qed
    ultimately show ?thesis using True Cons.prems by auto
  next
    case False
    with Cons show ?thesis by (auto simp: insert_by_set)
  qed
qed

lemma insertion_sort_is_ranges_sort: "is_ranges_sort insertion_sort"
proof -
  have "mset (insertion_sort cmp proj xs) = mset xs" for cmp proj xs
    by (induction xs) (simp_all add: insert_by_mset)
  moreover have "sorted_wrt (\<lambda>a b. \<not> cmp (proj b) (proj a)) (insertion_sort cmp proj xs)"
    if "strict_weak_order cmp" for cmp proj xs
    by (induction xs) (simp_all add: insert_by_sorted [OF that])
  ultimately show ?thesis by (simp add: is_ranges_sort_def)
qed

text \<open>
  With the program's comparator and projection, the guarantee is a rearrangement in
  descending order of score.
\<close>

lemma ranges_sort_descending:
  assumes "is_ranges_sort ranges_sort"
  shows "mset (ranges_sort std_greater score xs) = mset xs"
    and "sorted_wrt (\<lambda>a b. score a \<ge> score b) (ranges_sort std_greater score xs)"
proof -
  from assms strict_weak_order_std_greater
  have "mset (ranges_sort std_greater score xs) = mset xs \<and>
      sorted_wrt (\<lambda>a b. \<not> std_greater (score b) (score a)) (ranges_sort std_greater score xs)"
    unfolding is_ranges_sort_def by blast
  then show "mset (ranges_sort std_greater score xs) = mset xs"
    and "sorted_wrt (\<lambda>a b. score a \<ge> score b) (ranges_sort std_greater score xs)"
    by (simp_all add: std_greater_def not_less)
qed

lemma ranges_sort_Nil:
  "is_ranges_sort ranges_sort \<Longrightarrow> ranges_sort std_greater score [] = []"
  using ranges_sort_descending(1) [of ranges_sort "[]"] by simp

text \<open>A list whose scores are 90, 70, 50 has three elements, with these scores.\<close>

lemma sorted_desc_three:
  assumes "map (\<lambda>s. - score s) ys = [- 90, - 70, - 50]"
  shows "\<exists>y1 y2 y3. ys = [y1, y2, y3] \<and> score y1 = 90 \<and> score y2 = 70 \<and> score y3 = 50"
proof -
  from assms obtain y1 r1 where 1: "ys = y1 # r1" "score y1 = 90"
    "map (\<lambda>s. - score s) r1 = [- 70, - 50]"
    by (cases ys) simp_all
  from 1(3) obtain y2 r2 where 2: "r1 = y2 # r2" "score y2 = 70"
    "map (\<lambda>s. - score s) r2 = [- 50]"
    by (cases r1) simp_all
  from 2(3) obtain y3 where 3: "r2 = [y3]" "score y3 = 50"
    by (cases r2) simp_all
  from 1 2 3 show ?thesis by simp
qed

text \<open>
  The three scores of the example differ, so every sort that meets the standard's
  guarantee gives the same result on it.
\<close>

lemma ranges_sort_example:
  assumes "is_ranges_sort ranges_sort"
  shows "ranges_sort std_greater score [\<lparr>id' = 1, score = 50.0\<rparr>, \<lparr>id' = 2, score = 90.0\<rparr>,
            \<lparr>id' = 3, score = 70.0\<rparr>] =
         [\<lparr>id' = 2, score = 90.0\<rparr>, \<lparr>id' = 3, score = 70.0\<rparr>, \<lparr>id' = 1, score = 50.0\<rparr>]"
proof -
  define a b c :: Student where "a = \<lparr>id' = 1, score = 50.0\<rparr>"
    and "b = \<lparr>id' = 2, score = 90.0\<rparr>" and "c = \<lparr>id' = 3, score = 70.0\<rparr>"
  have sc: "score a = 50" "score b = 90" "score c = 70" by (simp_all add: a_def b_def c_def)
  define ys where "ys = ranges_sort std_greater score [a, b, c]"
  from ranges_sort_descending [OF assms, of "[a, b, c]"]
  have m: "mset ys = mset [a, b, c]"
    and srt: "sorted_wrt (\<lambda>a b. score a \<ge> score b) ys"
    by (simp_all add: ys_def)
  let ?f = "\<lambda>s :: Student. - score s"
  from srt have 1: "sorted (map ?f ys)" by (simp add: sorted_map)
  have mm: "mset (map ?f ys) = mset [- 50, - 90, - 70]"
    by (simp only: mset_map m) (simp add: sc)
  have 2: "distinct (map ?f ys)"
    using mset_eq_imp_distinct_iff [OF mm] by simp
  have 3: "sorted [- 90, - 70, - 50 :: real]" and 4: "distinct [- 90, - 70, - 50 :: real]"
    by simp_all
  have 5: "set (map ?f ys) = set [- 90, - 70, - 50 :: real]"
    using mset_eq_setD [OF mm] by (simp add: insert_commute)
  from 1 2 3 4 5 have "map ?f ys = [- 90, - 70, - 50]"
    by (rule sorted_distinct_set_unique)
  from sorted_desc_three [OF this] obtain y1 y2 y3 where ys: "ys = [y1, y2, y3]"
    and y: "score y1 = 90" "score y2 = 70" "score y3 = 50"
    by blast
  from mset_eq_setD [OF m] have "set ys = {a, b, c}" by simp
  with ys have mem: "y1 \<in> {a, b, c}" "y2 \<in> {a, b, c}" "y3 \<in> {a, b, c}" by auto
  from mem(1) y(1) sc have "y1 = b" by auto
  moreover from mem(2) y(2) sc have "y2 = c" by auto
  moreover from mem(3) y(3) sc have "y3 = a" by auto
  ultimately have "ys = [b, c, a]" using ys by simp
  then show ?thesis by (simp add: ys_def a_def b_def c_def)
qed

section \<open>C3: the guard of the executor\<close>

text \<open>
  C3. For every step (its title and its body) and every collection: when the collection
  is not empty, or the title is the string \<^verbatim>\<open>(Hypothetical Static Step)\<close>, the executor
  prints the header and runs the body, which gives the collection left and the rest of
  the output; otherwise (empty collection, any other title) the collection stays empty and
  the output is the header and the fixed notice, whatever the body is.
\<close>

theorem execute_processing_step_guard:
  "(data \<noteq> [] \<or> title = ''(Hypothetical Static Step)'' \<longrightarrow>
      execute_processing_step \<lparr>main_title = title, core_logic = body\<rparr> data =
        (fst (body data), step_banner title @ snd (body data))) \<and>
   (data = [] \<and> title \<noteq> ''(Hypothetical Static Step)'' \<longrightarrow>
      execute_processing_step \<lparr>main_title = title, core_logic = body\<rparr> data =
        ([], step_banner title @ no_data_notice))"
  by (auto simp: execute_processing_step_def step_banner_def no_data_notice_def Let_def
        split: prod.splits)

text \<open>
  C3 with a body that adds a student and prints a line: it runs on the empty collection
  under the designated title, is skipped on the empty collection under a title that
  differs from it in case only, and runs under that title on a collection of one.
\<close>

theorem execute_processing_step_guard_witness:
  "execute_processing_step
     \<lparr>main_title = ''(Hypothetical Static Step)'',
      core_logic = (\<lambda>data. (\<lparr>id' = 1, score = 50\<rparr> # data, [Println [Str ''body'']]))\<rparr> [] =
     ([\<lparr>id' = 1, score = 50\<rparr>],
      step_banner ''(Hypothetical Static Step)'' @ [Println [Str ''body'']]) \<and>
   execute_processing_step
     \<lparr>main_title = ''(hypothetical static step)'',
      core_logic = (\<lambda>data. (\<lparr>id' = 1, score = 50\<rparr> # data, [Println [Str ''body'']]))\<rparr> [] =
     ([], step_banner ''(hypothetical static step)'' @ no_data_notice) \<and>
   execute_processing_step
     \<lparr>main_title = ''(hypothetical static step)'',
      core_logic = (\<lambda>data. (\<lparr>id' = 1, score = 50\<rparr> # data, [Println [Str ''body'']]))\<rparr>
     [\<lparr>id' = 2, score = 60\<rparr>] =
     ([\<lparr>id' = 1, score = 50\<rparr>, \<lparr>id' = 2, score = 60\<rparr>],
      step_banner ''(hypothetical static step)'' @ [Println [Str ''body'']])"
  using
    execute_processing_step_guard [of "[]" "''(Hypothetical Static Step)''"
      "\<lambda>data. (\<lparr>id' = 1, score = 50\<rparr> # data, [Println [Str ''body'']])"]
    execute_processing_step_guard [of "[]" "''(hypothetical static step)''"
      "\<lambda>data. (\<lparr>id' = 1, score = 50\<rparr> # data, [Println [Str ''body'']])"]
    execute_processing_step_guard [of "[\<lparr>id' = 2, score = 60\<rparr>]"
      "''(hypothetical static step)''"
      "\<lambda>data. (\<lparr>id' = 1, score = 50\<rparr> # data, [Println [Str ''body'']])"]
  by simp

section \<open>C4: the steps on an empty collection\<close>

text \<open>
  C4, as the code has it. When its body runs on the empty collection, a filter step
  built with the summary count renders a table with no rows, the total 0 and the note that
  no students met the criteria; the analysis step reports 0 students analyzed and the
  average N/A, and renders such a table too; the sort step renders a table with no rows and,
  being built without the summary count, neither the total nor the note. No body divides
  by the number of students. Run by the executor on the empty collection, each configured
  step prints only its header and the notice that no data is available.
\<close>

theorem empty_collection_reports:
  assumes "is_ranges_sort ranges_sort"
  shows
    "core_logic (make_filter_print_step title list_title filter_pred True) [] =
       ([],
        [Println ([Str ''--- ''] @ list_title @ [Str '' ---'']),
         Println [Str ''| '', PadL 10 (Str ''Student ID''), Str '' | '',
                  PadL 12 (Str ''Score''), Str '' |''],
         Println [Str ''|'', Str ''------------'', Str ''|'', Str ''--------------'', Str ''|''],
         Println [Str ''-----------------------------''],
         Println [Str ''Total matching students: '', Siz 0],
         Println [Str ''(No students met the criteria for this list)''],
         Println []]) \<and>
     core_logic (processing_steps ranges_sort ! 2) [] =
       ([],
        [Println [Str ''--- Statistics ---''],
         Println [Str ''Number of students analyzed: 0''],
         Println [Str ''Calculated Average Score: N/A''],
         Println [Str ''--------------------''],
         Println [Str ''--- '', Str ''List: Scoring >= Average (N/A)'', Str '' ---''],
         Println [Str ''| '', PadL 10 (Str ''Student ID''), Str '' | '',
                  PadL 12 (Str ''Score''), Str '' |''],
         Println [Str ''|'', Str ''------------'', Str ''|'', Str ''--------------'', Str ''|''],
         Println [Str ''-----------------------------''],
         Println [Str ''Total matching students: '', Siz 0],
         Println [Str ''(No students met the criteria for this list)''],
         Println []]) \<and>
     core_logic (processing_steps ranges_sort ! 3) [] =
       ([],
        [Println [Str ''--- Sorting Data by Score (Descending)... ---''],
         Println [Str ''--- Data Sorted Successfully ---''],
         Println [],
         Println [Str ''--- '', Str ''List: All Students (Sorted by Score Descending)'',
                  Str '' ---''],
         Println [Str ''| '', PadL 10 (Str ''Student ID''), Str '' | '',
                  PadL 12 (Str ''Score''), Str '' |''],
         Println [Str ''|'', Str ''------------'', Str ''|'', Str ''--------------'', Str ''|''],
         Println [Str ''-----------------------------''],
         Println []]) \<and>
     (\<forall>step\<in>set (processing_steps ranges_sort).
        execute_processing_step step [] =
          ([], step_banner (main_title step) @ no_data_notice))"
proof -
  have filter_step:
    "core_logic (make_filter_print_step title list_title filter_pred True) [] =
       ([], print_student_table list_title [] True)"
    by (simp add: make_filter_print_step_def)
  have analysis_step:
    "core_logic (processing_steps ranges_sort ! 2) [] = ([], above_average_logic [])"
    by (simp add: processing_steps_def make_custom_logic_step_def)
  have sort_step:
    "core_logic (processing_steps ranges_sort ! 3) [] = sort_all_and_print ranges_sort []"
    by (simp add: processing_steps_def make_action_step_def)
  have executor: "\<forall>step\<in>set (processing_steps ranges_sort).
        execute_processing_step step [] =
          ([], step_banner (main_title step) @ no_data_notice)"
    using processing_steps_not_static [of ranges_sort]
    by (blast intro: execute_processing_step_empty)
  show ?thesis
    unfolding filter_step analysis_step sort_step
    using executor ranges_sort_Nil [OF assms]
    by (simp add: print_student_table_eq above_average_logic_def sort_all_and_print_def)
qed

text \<open>C4, as amended, with the insertion sort: the sort step and the first filter step.\<close>

theorem empty_collection_reports_witness:
  "is_ranges_sort insertion_sort \<and>
   core_logic (processing_steps insertion_sort ! 3) [] =
       ([],
        [Println [Str ''--- Sorting Data by Score (Descending)... ---''],
         Println [Str ''--- Data Sorted Successfully ---''],
         Println [],
         Println [Str ''--- '', Str ''List: All Students (Sorted by Score Descending)'',
                  Str '' ---''],
         Println [Str ''| '', PadL 10 (Str ''Student ID''), Str '' | '',
                  PadL 12 (Str ''Score''), Str '' |''],
         Println [Str ''|'', Str ''------------'', Str ''|'', Str ''--------------'', Str ''|''],
         Println [Str ''-----------------------------''],
         Println []]) \<and>
   execute_processing_step (processing_steps insertion_sort ! 0) [] =
     ([], step_banner (main_title (processing_steps insertion_sort ! 0)) @ no_data_notice)"
proof -
  note all = empty_collection_reports [OF insertion_sort_is_ranges_sort]
  have "processing_steps insertion_sort ! 0 \<in> set (processing_steps insertion_sort)"
    by (simp add: processing_steps_def)
  with all [of "[]" "[]" "\<lambda>s. True"] insertion_sort_is_ranges_sort
  show ?thesis by blast
qed

text \<open>
  C4 as stated fails for the sort step, the one mutation step of the program: on the
  empty collection the note that no students met the criteria is not in what its body
  prints, and not in what the executor prints for it, nor for the first filter step.
\<close>

theorem sort_step_empty_no_note:
  "Println [Str ''(No students met the criteria for this list)''] \<notin>
     set (snd (core_logic (processing_steps insertion_sort ! 3) [])) \<and>
   Println [Str ''(No students met the criteria for this list)''] \<notin>
     set (snd (execute_processing_step (processing_steps insertion_sort ! 3) [])) \<and>
   Println [Str ''(No students met the criteria for this list)''] \<notin>
     set (snd (execute_processing_step (processing_steps insertion_sort ! 0) []))"
  by (simp add: processing_steps_def make_action_step_def make_filter_print_step_def
        sort_all_and_print_def print_student_table_eq execute_processing_step_def Let_def)

section \<open>C5: the sort step\<close>

text \<open>
  C5. The step sorts with the comparator \<^verbatim>\<open>std::greater\<close> on the scores. With any sort
  algorithm that meets the standard's guarantee, it therefore leaves a rearrangement of
  the collection in descending order of score. On the collection
  \<open>[{1,50.0},{2,90.0},{3,70.0}]\<close> it leaves \<open>[{2,90.0},{3,70.0},{1,50.0}]\<close>; whatever steps
  follow it run on that collection; and the configured pipeline, in which it is the last
  step, ends with that collection.
\<close>

theorem sort_step_example:
  assumes "is_ranges_sort ranges_sort"
  shows
    "mset (fst (execute_processing_step (processing_steps ranges_sort ! 3) data)) = mset data \<and>
     sorted_wrt (\<lambda>a b. score a \<ge> score b)
       (fst (execute_processing_step (processing_steps ranges_sort ! 3) data)) \<and>
     fst (execute_processing_step (processing_steps ranges_sort ! 3)
            [\<lparr>id' = 1, score = 50.0\<rparr>, \<lparr>id' = 2, score = 90.0\<rparr>, \<lparr>id' = 3, score = 70.0\<rparr>]) =
       [\<lparr>id' = 2, score = 90.0\<rparr>, \<lparr>id' = 3, score = 70.0\<rparr>, \<lparr>id' = 1, score = 50.0\<rparr>] \<and>
     execute_steps (processing_steps ranges_sort ! 3 # later)
        [\<lparr>id' = 1, score = 50.0\<rparr>, \<lparr>id' = 2, score = 90.0\<rparr>, \<lparr>id' = 3, score = 70.0\<rparr>] =
       (fst (execute_steps later
               [\<lparr>id' = 2, score = 90.0\<rparr>, \<lparr>id' = 3, score = 70.0\<rparr>, \<lparr>id' = 1, score = 50.0\<rparr>]),
        snd (execute_processing_step (processing_steps ranges_sort ! 3)
               [\<lparr>id' = 1, score = 50.0\<rparr>, \<lparr>id' = 2, score = 90.0\<rparr>, \<lparr>id' = 3, score = 70.0\<rparr>]) @
        snd (execute_steps later
               [\<lparr>id' = 2, score = 90.0\<rparr>, \<lparr>id' = 3, score = 70.0\<rparr>, \<lparr>id' = 1, score = 50.0\<rparr>])) \<and>
     fst (execute_steps (processing_steps ranges_sort)
            [\<lparr>id' = 1, score = 50.0\<rparr>, \<lparr>id' = 2, score = 90.0\<rparr>, \<lparr>id' = 3, score = 70.0\<rparr>]) =
       [\<lparr>id' = 2, score = 90.0\<rparr>, \<lparr>id' = 3, score = 70.0\<rparr>, \<lparr>id' = 1, score = 50.0\<rparr>]"
proof -
  let ?xs = "[\<lparr>id' = 1, score = 50.0\<rparr>, \<lparr>id' = 2, score = 90.0\<rparr>,
              \<lparr>id' = 3 :: 32 word, score = 70.0 :: real\<rparr>]"
  let ?ys = "[\<lparr>id' = 2, score = 90.0\<rparr>, \<lparr>id' = 3, score = 70.0\<rparr>,
              \<lparr>id' = 1 :: 32 word, score = 50.0 :: real\<rparr>]"
  have sorted_result:
    "fst (execute_processing_step (processing_steps ranges_sort ! 3) data) =
       ranges_sort std_greater score data"
    using ranges_sort_Nil [OF assms]
    by (cases "data = []")
      (simp_all add: execute_processing_step_def processing_steps_def make_action_step_def
         sort_all_and_print_def Let_def)
  from ranges_sort_descending [OF assms, of data] have general:
    "mset (fst (execute_processing_step (processing_steps ranges_sort ! 3) data)) = mset data"
    "sorted_wrt (\<lambda>a b. score a \<ge> score b)
       (fst (execute_processing_step (processing_steps ranges_sort ! 3) data))"
    unfolding sorted_result by simp_all
  have step4: "fst (execute_processing_step (processing_steps ranges_sort ! 3) ?xs) = ?ys"
    using ranges_sort_example [OF assms]
    by (simp add: execute_processing_step_nonempty processing_steps_def make_action_step_def
          sort_all_and_print_def Let_def)
  have run: "execute_steps (processing_steps ranges_sort ! 3 # later) ?xs =
       (fst (execute_steps later ?ys),
        snd (execute_processing_step (processing_steps ranges_sort ! 3) ?xs) @
        snd (execute_steps later ?ys))"
    using step4 by (simp add: Let_def case_prod_beta)
  have "fst (execute_steps (processing_steps ranges_sort) ?xs) = ?ys"
    using step4 by (subst processing_steps_nth)
      (simp add: read_only_steps Let_def case_prod_beta del: One_nat_def)
  with general step4 run show ?thesis by blast
qed

text \<open>C5 with the insertion sort.\<close>

theorem sort_step_example_witness:
  "is_ranges_sort insertion_sort \<and>
   fst (execute_processing_step (processing_steps insertion_sort ! 3)
            [\<lparr>id' = 1, score = 50.0\<rparr>, \<lparr>id' = 2, score = 90.0\<rparr>, \<lparr>id' = 3, score = 70.0\<rparr>]) =
       [\<lparr>id' = 2, score = 90.0\<rparr>, \<lparr>id' = 3, score = 70.0\<rparr>, \<lparr>id' = 1, score = 50.0\<rparr>]"
  using sort_step_example [OF insertion_sort_is_ranges_sort]
    insertion_sort_is_ranges_sort by blast

section \<open>C6: the average\<close>

text \<open>
  C6. On \<open>[{1,60.0},{2,80.0}]\<close> the analysis step leaves the collection as it is, reports
  2 students analyzed and the average 70 (printed with two decimals, also in the title of
  the list), and the list it renders has one row, for the student \<open>{2,80.0}\<close>, and the
  total 1. The sum 140 and the quotient 70 are exact in binary64 as well.
\<close>

theorem above_average_example:
  "core_logic (processing_steps ranges_sort ! 2)
     [\<lparr>id' = 1, score = 60.0\<rparr>, \<lparr>id' = 2, score = 80.0\<rparr>] =
     ([\<lparr>id' = 1, score = 60.0\<rparr>, \<lparr>id' = 2, score = 80.0\<rparr>],
      [Println [Str ''--- Statistics ---''],
       Println [Str ''Number of students analyzed: '', Siz 2],
       Println [Str ''Calculated Average Score: '', Fixed 2 70.0],
       Println [Str ''--------------------'']] @
      print_student_table [Str ''List: Scoring >= Average ('', Fixed 2 70.0, Str '')'']
        [\<lparr>id' = 2, score = 80.0\<rparr>] True) \<and>
   print_student_table [Str ''List: Scoring >= Average ('', Fixed 2 70.0, Str '')'']
        [\<lparr>id' = 2, score = 80.0\<rparr>] True =
     [Println [Str ''--- '', Str ''List: Scoring >= Average ('', Fixed 2 70.0, Str '')'',
               Str '' ---''],
      Println [Str ''| '', PadL 10 (Str ''Student ID''), Str '' | '',
               PadL 12 (Str ''Score''), Str '' |''],
      Println [Str ''|'', Str ''------------'', Str ''|'', Str ''--------------'', Str ''|''],
      Println [Str ''| '', PadL 10 (Num 2), Str '' | '', PadL 12 (Fixed 2 80.0), Str '' |''],
      Println [Str ''-----------------------------''],
      Println [Str ''Total matching students: '', Siz 1],
      Println []]"
  by (simp add: processing_steps_def make_custom_logic_step_def above_average_logic_def
        print_student_table_eq table_row_def W_ID_def W_SCORE_def Let_def)

section \<open>C7: the order of execution\<close>

text \<open>
  C7. Wherever two steps \<open>A\<close> and \<open>B\<close> stand next to each other in the sequence: the steps
  before them run first, from the initial collection, and leave a collection \<open>d0\<close>. Then
  the executor prints the header of \<open>A\<close> and, unless the guard skips the step, runs the body
  of \<open>A\<close> on \<open>d0\<close>, which leaves \<open>d1\<close>. Then it prints the header of \<open>B\<close> and, unless the
  guard skips the step, runs the body of \<open>B\<close> on \<open>d1\<close>, the collection the body of \<open>A\<close> left,
  which leaves \<open>d2\<close>. The steps after them run on \<open>d2\<close>, and the output comes in this order.
  So the collection the body of \<open>A\<close> is given does not depend on \<open>B\<close> or on any later step,
  and the body of \<open>B\<close> is never given the collection from before \<open>A\<close>.
\<close>

theorem execute_steps_in_order:
  "execute_steps (earlier @ A # B # later) data =
     (let (d0, p0) = execute_steps earlier data;
          (d1, p1) =
            (if d0 = [] \<and> main_title A \<noteq> ''(Hypothetical Static Step)''
             then ([], step_banner (main_title A) @ no_data_notice)
             else (fst (core_logic A d0),
                   step_banner (main_title A) @ snd (core_logic A d0)));
          (d2, p2) =
            (if d1 = [] \<and> main_title B \<noteq> ''(Hypothetical Static Step)''
             then ([], step_banner (main_title B) @ no_data_notice)
             else (fst (core_logic B d1),
                   step_banner (main_title B) @ snd (core_logic B d1)));
          (d3, p3) = execute_steps later d2
      in (d3, p0 @ p1 @ p2 @ p3))"
proof -
  have step: "execute_processing_step step d =
      (if d = [] \<and> main_title step \<noteq> ''(Hypothetical Static Step)''
       then ([], step_banner (main_title step) @ no_data_notice)
       else (fst (core_logic step d), step_banner (main_title step) @ snd (core_logic step d)))"
    for step d
    by (simp add: execute_processing_step_def step_banner_def no_data_notice_def Let_def
          case_prod_beta)
  show ?thesis
    by (simp add: execute_steps_append step Let_def case_prod_beta)
qed

text \<open>
  C7 on a run of three steps over two students: \<open>A\<close> reverses the collection, \<open>B\<close> prints a
  row for each student of the collection it is given, and the last step empties the
  collection. \<open>B\<close> prints the rows in the order \<open>A\<close> left, student 2 before student 1, and
  both of them, although the last step leaves none.
\<close>

theorem execute_steps_in_order_witness:
  "execute_steps
     ([] @ make_action_step ''A'' (\<lambda>data. (rev data, [])) #
            make_custom_logic_step ''B'' (\<lambda>data. map table_row data) #
            [make_action_step ''C'' (\<lambda>data. ([], []))])
     [\<lparr>id' = 1, score = 50\<rparr>, \<lparr>id' = 2, score = 90\<rparr>] =
     ([],
      step_banner ''A'' @
      step_banner ''B'' @
      [table_row \<lparr>id' = 2, score = 90\<rparr>, table_row \<lparr>id' = 1, score = 50\<rparr>] @
      step_banner ''C'')"
proof -
  let ?A = "make_action_step ''A'' (\<lambda>data. (rev data, []))"
  let ?B = "make_custom_logic_step ''B'' (\<lambda>data. map table_row data)"
  let ?C = "make_action_step ''C'' (\<lambda>data. ([], []))"
  have first: "execute_steps [] [\<lparr>id' = 1, score = 50\<rparr>, \<lparr>id' = 2, score = 90 :: real\<rparr>] =
      ([\<lparr>id' = 1, score = 50\<rparr>, \<lparr>id' = 2, score = 90\<rparr>], [])"
    by simp
  have last: "execute_processing_step ?C
      [\<lparr>id' = 2, score = 90\<rparr>, \<lparr>id' = 1, score = 50 :: real\<rparr>] = ([], step_banner ''C'')"
    by (simp add: execute_processing_step_def make_action_step_def step_banner_def)
  have A: "main_title ?A = ''A''" "core_logic ?A = (\<lambda>data. (rev data, []))"
    by (simp_all add: make_action_step_def)
  have B: "main_title ?B = ''B''" "core_logic ?B = (\<lambda>data. (data, map table_row data))"
    by (simp_all add: make_custom_logic_step_def)
  show ?thesis
    by (simp only: execute_steps_in_order [of "[]" ?A ?B "[?C]"] first A B)
      (simp add: last)
qed

section \<open>C8: a filter step leaves the collection alone\<close>

text \<open>
  C8. For every collection, predicate, titles and summary flag, the body of a filter
  step returns the collection it was given, printing the table of the students that
  satisfy the predicate; so does the executor running the step.
\<close>

theorem filter_print_step_keeps_collection:
  "core_logic (make_filter_print_step title list_title filter_pred print_summary) data =
     (data, print_student_table list_title (filter filter_pred data) print_summary) \<and>
   fst (execute_processing_step
          (make_filter_print_step title list_title filter_pred print_summary) data) = data"
  by (simp add: make_filter_print_step_def execute_processing_step_def Let_def)

section \<open>C9: an empty collection stays empty\<close>

text \<open>
  C9. A step whose title is not \<^verbatim>\<open>(Hypothetical Static Step)\<close>, run by the executor on the
  empty collection, leaves it empty and prints only the header and the notice. So a
  sequence of such steps leaves the empty collection empty, printing a header and a notice
  for each; the configured pipeline is such a sequence.
\<close>

theorem empty_collection_stays_empty:
  "(main_title step \<noteq> ''(Hypothetical Static Step)'' \<longrightarrow>
      execute_processing_step step [] =
        ([], step_banner (main_title step) @ no_data_notice)) \<and>
   ((\<forall>step\<in>set steps. main_title step \<noteq> ''(Hypothetical Static Step)'') \<longrightarrow>
      execute_steps steps [] =
        ([], concat (map (\<lambda>step. step_banner (main_title step) @ no_data_notice) steps))) \<and>
   execute_steps (processing_steps ranges_sort) [] =
     ([], concat (map (\<lambda>step. step_banner (main_title step) @ no_data_notice)
                    (processing_steps ranges_sort)))"
  by (simp add: execute_processing_step_empty execute_steps_empty processing_steps_not_static)

text \<open>
  C9 with a step whose body would add a student: alone, followed by a filter step, and
  the configured pipeline.
\<close>

theorem empty_collection_stays_empty_witness:
  "execute_processing_step
     (make_action_step ''Refill'' (\<lambda>data. (\<lparr>id' = 1, score = 50\<rparr> # data, []))) [] =
     ([], step_banner ''Refill'' @ no_data_notice) \<and>
   fst (execute_steps
     [make_action_step ''Refill'' (\<lambda>data. (\<lparr>id' = 1, score = 50\<rparr> # data, [])),
      make_filter_print_step ''All'' [Str ''All''] (\<lambda>s. True) True] []) = [] \<and>
   fst (execute_steps (processing_steps insertion_sort) []) = []"
proof -
  let ?refill = "make_action_step ''Refill'' (\<lambda>data. (\<lparr>id' = 1, score = 50\<rparr> # data, []))"
  let ?steps = "[?refill, make_filter_print_step ''All'' [Str ''All''] (\<lambda>s. True) True]"
  have title: "main_title ?refill = ''Refill''" by (simp add: make_action_step_def)
  have h1: "main_title ?refill \<noteq> ''(Hypothetical Static Step)''"
    by (simp add: make_action_step_def)
  have h2: "\<forall>step\<in>set ?steps. main_title step \<noteq> ''(Hypothetical Static Step)''"
    by (simp add: make_action_step_def make_filter_print_step_def)
  note all = empty_collection_stays_empty [of ?refill ?steps insertion_sort]
  from all h1 have "execute_processing_step ?refill [] =
      ([], step_banner (main_title ?refill) @ no_data_notice)" by blast
  then have a: "execute_processing_step ?refill [] = ([], step_banner ''Refill'' @ no_data_notice)"
    by (simp only: title)
  from all h2 have "execute_steps ?steps [] =
      ([], concat (map (\<lambda>step. step_banner (main_title step) @ no_data_notice) ?steps))"
    by blast
  then have b: "fst (execute_steps ?steps []) = []" by (simp only: fst_conv)
  from all have "execute_steps (processing_steps insertion_sort) [] =
     ([], concat (map (\<lambda>step. step_banner (main_title step) @ no_data_notice)
                    (processing_steps insertion_sort)))" by blast
  then have c: "fst (execute_steps (processing_steps insertion_sort) []) = []"
    by (simp only: fst_conv)
  from a b c show ?thesis by blast
qed

section \<open>C10: the thresholds are exclusive\<close>

text \<open>
  C10. A student whose score is exactly 85 or exactly 60 satisfies neither the predicate
  of the excellent students (score above 85) nor that of the failing students (score
  below 60): in every collection the student is in neither filtered range, and the row of
  the student is in the output of neither step.
\<close>

theorem threshold_boundaries_exclusive:
  assumes "score s = 85 \<or> score s = 60"
  shows "\<not> is_excellent s \<and> \<not> is_failing s \<and>
    s \<notin> set (filter is_excellent data) \<and> s \<notin> set (filter is_failing data) \<and>
    table_row s \<notin> set (snd (execute_processing_step (processing_steps ranges_sort ! 0) data)) \<and>
    table_row s \<notin> set (snd (execute_processing_step (processing_steps ranges_sort ! 1) data))"
proof -
  from assms have pred: "\<not> is_excellent s" "\<not> is_failing s"
    by (auto simp: is_excellent_def is_failing_def EXCELLENT_THRESHOLD_def PASS_THRESHOLD_def)
  have "table_row s \<notin> set (snd (execute_processing_step (processing_steps ranges_sort ! 0) data))"
    unfolding step1_output using assms
    by (auto simp: step_banner_def no_data_notice_def table_row_def is_excellent_def
          EXCELLENT_THRESHOLD_def dest!: table_row_in_table [unfolded table_row_def])
  moreover
  have "table_row s \<notin> set (snd (execute_processing_step (processing_steps ranges_sort ! 1) data))"
    unfolding step2_output using assms
    by (auto simp: step_banner_def no_data_notice_def table_row_def is_failing_def
          PASS_THRESHOLD_def dest!: table_row_in_table [unfolded table_row_def])
  ultimately show ?thesis using pred by simp
qed

text \<open>
  C10 on a collection with a student at each threshold and one just beyond each: the
  student at 85 is not in the list of the first step, the student at 60 not in the list
  of the second.
\<close>

theorem threshold_boundaries_exclusive_witness:
  "table_row \<lparr>id' = 2, score = 85\<rparr> \<notin> set (snd (execute_processing_step
      (processing_steps insertion_sort ! 0)
      [\<lparr>id' = 1, score = 85.5\<rparr>, \<lparr>id' = 2, score = 85\<rparr>, \<lparr>id' = 3, score = 60\<rparr>,
       \<lparr>id' = 4, score = 59.5\<rparr>])) \<and>
   table_row \<lparr>id' = 3, score = 60\<rparr> \<notin> set (snd (execute_processing_step
      (processing_steps insertion_sort ! 1)
      [\<lparr>id' = 1, score = 85.5\<rparr>, \<lparr>id' = 2, score = 85\<rparr>, \<lparr>id' = 3, score = 60\<rparr>,
       \<lparr>id' = 4, score = 59.5\<rparr>]))"
  using
    threshold_boundaries_exclusive [of "\<lparr>id' = 2, score = 85\<rparr>"
      "[\<lparr>id' = 1, score = 85.5\<rparr>, \<lparr>id' = 2, score = 85\<rparr>, \<lparr>id' = 3, score = 60\<rparr>,
        \<lparr>id' = 4, score = 59.5\<rparr>]" insertion_sort]
    threshold_boundaries_exclusive [of "\<lparr>id' = 3, score = 60\<rparr>"
      "[\<lparr>id' = 1, score = 85.5\<rparr>, \<lparr>id' = 2, score = 85\<rparr>, \<lparr>id' = 3, score = 60\<rparr>,
        \<lparr>id' = 4, score = 59.5\<rparr>]" insertion_sort]
  by simp

end
